theory Spec2Isabelle
  imports Main "HOL-Library.Word"
begin

section \<open>Strings\<close>

text \<open>
  A JavaScript string is a sequence of 16-bit code units. The regular expressions of
  \<^verbatim>\<open>preprocessExpression\<close> carry no \<^verbatim>\<open>u\<close> flag, so they work on code units too.
  \<open>str\<close> embeds an ASCII literal; the en dash U+2013 is the code unit \<open>0x2013\<close>.
\<close>

type_synonym jschar = "16 word"
type_synonym jsstring = "jschar list"

definition str :: "string \<Rightarrow> jsstring" where
  "str s = map of_char s"

section \<open>Regular expressions of the normalizer\<close>

text \<open>
  The seven patterns of \<^verbatim>\<open>preprocessExpression\<close> are sequences of capture groups, each a
  sequence of terms; a term is a one-character atom, alone or under a greedy \<^verbatim>\<open>*\<close> or
  \<^verbatim>\<open>+\<close>. The atoms are a literal code unit, \<^verbatim>\<open>\d\<close> (the ASCII digits) and \<^verbatim>\<open>\s\<close>
  (ECMAScript WhiteSpace and LineTerminator). A pattern written without parentheses is
  one group here; its template refers to no group.
\<close>

datatype atom = Lit jschar | Digit | Space

definition isDigit :: "jschar \<Rightarrow> bool" where
  "isDigit c = (0x30 \<le> c \<and> c \<le> 0x39)"

definition isSpace :: "jschar \<Rightarrow> bool" where
  "isSpace c = (c \<in> {0x09, 0x0A, 0x0B, 0x0C, 0x0D, 0x20, 0xA0, 0x1680, 0x2028, 0x2029,
                      0x202F, 0x205F, 0x3000, 0xFEFF} \<or> (0x2000 \<le> c \<and> c \<le> 0x200A))"

fun inClass :: "atom \<Rightarrow> jschar \<Rightarrow> bool" where
  "inClass (Lit x) c = (c = x)"
| "inClass Digit c = isDigit c"
| "inClass Space c = isSpace c"

datatype rterm = Once atom | Star atom | Plus atom

type_synonym regex = "rterm list list"

text \<open>
  A match is the list of captured strings, one per group, and the rest of the subject
  after the match. \<open>push\<close> records a consumed code unit in the group being matched,
  \<open>openGroup\<close> starts the capture of a group.
\<close>

type_synonym rmatch = "(jsstring list \<times> jsstring) option"

fun push :: "jschar \<Rightarrow> rmatch \<Rightarrow> rmatch" where
  "push c None = None"
| "push c (Some ([], rest)) = Some ([[c]], rest)"
| "push c (Some (g # caps, rest)) = Some ((c # g) # caps, rest)"

fun openGroup :: "rmatch \<Rightarrow> rmatch" where
  "openGroup None = None"
| "openGroup (Some (caps, rest)) = Some ([] # caps, rest)"

text \<open>
  \<open>exec re s\<close> is the backtracking matcher anchored at the start of \<open>s\<close>: a greedy
  quantifier first tries to consume one more code unit and falls back to the rest of
  the pattern when that fails.
\<close>

fun exec :: "regex \<Rightarrow> jsstring \<Rightarrow> rmatch" where
  "exec [] s = Some ([], s)"
| "exec ([] # gs) s = openGroup (exec gs s)"
| "exec ((Once a # ts) # gs) [] = None"
| "exec ((Once a # ts) # gs) (c # cs) =
     (if inClass a c then push c (exec (ts # gs) cs) else None)"
| "exec ((Plus a # ts) # gs) [] = None"
| "exec ((Plus a # ts) # gs) (c # cs) =
     (if inClass a c then push c (exec ((Star a # ts) # gs) cs) else None)"
| "exec ((Star a # ts) # gs) [] = exec (ts # gs) []"
| "exec ((Star a # ts) # gs) (c # cs) =
     (if inClass a c
      then (case exec ((Star a # ts) # gs) cs of
              Some r \<Rightarrow> push c (Some r)
            | None \<Rightarrow> exec (ts # gs) (c # cs))
      else exec (ts # gs) (c # cs))"

text \<open>The decimal digits of a natural number, the most significant first.\<close>

definition digitChar :: "nat \<Rightarrow> jschar" where
  "digitChar d = 0x30 + of_nat d"

fun digitsOf :: "nat \<Rightarrow> jsstring" where
  "digitsOf n = (if n < 10 then [digitChar n] else digitsOf (n div 10) @ [digitChar (n mod 10)])"

declare digitsOf.simps [simp del]

text \<open>
  A replacement template is text with group references \<^verbatim>\<open>$n\<close>. A reference to a
  group the pattern does not have stays in the result as it is written.
\<close>

datatype piece = Text jsstring | Ref nat

fun expandPiece :: "jsstring list \<Rightarrow> piece \<Rightarrow> jsstring" where
  "expandPiece caps (Text t) = t"
| "expandPiece caps (Ref n) =
     (if 0 < n \<and> n \<le> length caps then caps ! (n - 1) else str ''$'' @ digitsOf n)"

definition expand :: "piece list \<Rightarrow> jsstring list \<Rightarrow> jsstring" where
  "expand tmpl caps = concat (map (expandPiece caps) tmpl)"

text \<open>
  \<^verbatim>\<open>String.prototype.replace\<close> with a global pattern: the subject is scanned from the
  left; where the pattern matches, the expanded template replaces the match and the
  scan goes on behind it; elsewhere the code unit is copied. After an empty match the
  scan advances by one code unit.
\<close>

function replaceAll :: "regex \<Rightarrow> piece list \<Rightarrow> jsstring \<Rightarrow> jsstring" where
  "replaceAll re tmpl [] =
     (case exec re [] of Some (caps, rest) \<Rightarrow> expand tmpl caps | None \<Rightarrow> [])"
| "replaceAll re tmpl (c # cs) =
     (case exec re (c # cs) of
        Some (caps, rest) \<Rightarrow>
          (if length rest < length (c # cs)
           then expand tmpl caps @ replaceAll re tmpl rest
           else expand tmpl caps @ c # replaceAll re tmpl cs)
      | None \<Rightarrow> c # replaceAll re tmpl cs)"
  by pat_completeness auto
termination
  by (relation "measure (\<lambda>(re, tmpl, s). length s)") auto

section \<open>The normalizer\<close>

text \<open>
  \<^verbatim>\<open>preprocessExpression\<close> (App.tsx, lines 74 to 83): seven global replacements, applied
  in the order of the source (the innermost call below is the first). The patterns of
  lines 80 and 81 are \<open>digitsThenParen\<close> and \<open>parenThenDigits\<close>, and \<open>times\<close> is
  their template \<^verbatim>\<open>$1 * $2\<close>.
\<close>

definition digitsThenParen :: regex where
  "digitsThenParen = [[Plus Digit], [Star Space, Once (Lit 0x28)]]"

definition parenThenDigits :: regex where
  "parenThenDigits = [[Once (Lit 0x29)], [Star Space, Plus Digit]]"

definition times :: "piece list" where
  "times = [Ref 1, Text (str '' * ''), Ref 2]"

definition preprocessExpression :: "jsstring \<Rightarrow> jsstring" where
  "preprocessExpression expr =
     replaceAll [[Once (Lit 0x2013)]] [Text (str ''-'')]
    (replaceAll parenThenDigits times
    (replaceAll digitsThenParen times
    (replaceAll [[Once (Lit 0x5D)]] [Text (str '')'')]
    (replaceAll [[Once (Lit 0x7D)]] [Text (str '')'')]
    (replaceAll [[Once (Lit 0x5B)]] [Text (str ''('')]
    (replaceAll [[Once (Lit 0x7B)]] [Text (str ''('')] expr))))))"

section \<open>Numbers and their rendering\<close>

text \<open>
  The value of a constant node is a JavaScript number. A finite number is kept as the
  decimal that \<^verbatim>\<open>Number.prototype.toString\<close> prints: \<open>Finite neg s n\<close> stands for
  \<open>s * 10 ^ (n - k)\<close>, negated when \<open>neg\<close>, where \<open>k\<close> is the number of digits of
  \<open>s\<close> (the integers \<open>n\<close>, \<open>k\<close>, \<open>s\<close> of the ECMAScript algorithm); \<open>s = 0\<close> is
  zero. So \<open>Finite False 2 1\<close> is the number 2 and \<open>Finite False 25 1\<close> is 2.5.
\<close>

datatype number = NaN | PosInfinity | NegInfinity | Finite bool nat int

definition unsignedToString :: "nat \<Rightarrow> int \<Rightarrow> jsstring" where
  "unsignedToString s n =
     (let ds = digitsOf s; k = int (length ds) in
      if - 5 \<le> n \<and> n \<le> 21 then
        (if n \<ge> k then ds @ replicate (nat (n - k)) 0x30
         else if n > 0 then take (nat n) ds @ str ''.'' @ drop (nat n) ds
         else str ''0.'' @ replicate (nat (- n)) 0x30 @ ds)
      else
        (let e = n - 1;
             sign = (if e < 0 then str ''-'' else str ''+'');
             es = digitsOf (nat \<bar>e\<bar>) in
         if k = 1 then ds @ str ''e'' @ sign @ es
         else take 1 ds @ str ''.'' @ drop 1 ds @ str ''e'' @ sign @ es))"

fun toString :: "number \<Rightarrow> jsstring" where
  "toString NaN = str ''NaN''"
| "toString PosInfinity = str ''Infinity''"
| "toString NegInfinity = str ''-Infinity''"
| "toString (Finite neg s n) =
     (if s = 0 then str ''0''
      else if neg then str ''-'' @ unsignedToString s n
      else unsignedToString s n)"

text \<open>
  \<^verbatim>\<open>!isNaN(+value)\<close>, the test of \<^verbatim>\<open>drawTree\<close> (line 147) for "the value is a number":
  the string, trimmed of white space, is empty or a StrNumericLiteral of ECMAScript.
\<close>

definition allDigits1 :: "jsstring \<Rightarrow> bool" where
  "allDigits1 s = (s \<noteq> [] \<and> list_all isDigit s)"

definition signedInteger :: "jsstring \<Rightarrow> bool" where
  "signedInteger s =
     (case s of
        [] \<Rightarrow> False
      | c # cs \<Rightarrow> if c = 0x2B \<or> c = 0x2D then allDigits1 cs else allDigits1 s)"

definition exponentPartOpt :: "jsstring \<Rightarrow> bool" where
  "exponentPartOpt s =
     (case s of [] \<Rightarrow> True | c # cs \<Rightarrow> (c = 0x65 \<or> c = 0x45) \<and> signedInteger cs)"

definition strUnsignedDecimalLiteral :: "jsstring \<Rightarrow> bool" where
  "strUnsignedDecimalLiteral s =
     (s = str ''Infinity'' \<or>
      (let ip = takeWhile isDigit s; r = dropWhile isDigit s in
       case r of
         [] \<Rightarrow> ip \<noteq> []
       | c # cs \<Rightarrow>
           if c = 0x2E
           then (let fp = takeWhile isDigit cs; r' = dropWhile isDigit cs in
                 (ip \<noteq> [] \<or> fp \<noteq> []) \<and> exponentPartOpt r')
           else ip \<noteq> [] \<and> exponentPartOpt r))"

definition strDecimalLiteral :: "jsstring \<Rightarrow> bool" where
  "strDecimalLiteral s =
     (case s of
        [] \<Rightarrow> False
      | c # cs \<Rightarrow>
          if c = 0x2B \<or> c = 0x2D then strUnsignedDecimalLiteral cs
          else strUnsignedDecimalLiteral s)"

definition isHexDigit :: "jschar \<Rightarrow> bool" where
  "isHexDigit c = (isDigit c \<or> (0x41 \<le> c \<and> c \<le> 0x46) \<or> (0x61 \<le> c \<and> c \<le> 0x66))"

definition nonDecimalIntegerLiteral :: "jsstring \<Rightarrow> bool" where
  "nonDecimalIntegerLiteral s =
     (case s of
        z # b # ds \<Rightarrow>
          z = 0x30 \<and> ds \<noteq> [] \<and>
          (if b = 0x78 \<or> b = 0x58 then list_all isHexDigit ds
           else if b = 0x6F \<or> b = 0x4F then list_all (\<lambda>c. 0x30 \<le> c \<and> c \<le> 0x37) ds
           else if b = 0x62 \<or> b = 0x42 then list_all (\<lambda>c. c = 0x30 \<or> c = 0x31) ds
           else False)
      | _ \<Rightarrow> False)"

definition trim :: "jsstring \<Rightarrow> jsstring" where
  "trim s = rev (dropWhile isSpace (rev (dropWhile isSpace s)))"

definition parsesAsNumber :: "jsstring \<Rightarrow> bool" where
  "parsesAsNumber v =
     (let t = trim v in t = [] \<or> strDecimalLiteral t \<or> nonDecimalIntegerLiteral t)"

section \<open>The two trees\<close>

text \<open>
  The \<^verbatim>\<open>value\<close> of a constant node. The cast \<^verbatim>\<open>node as ConstantNode\<close> of line 59
  checks nothing, so the value is whatever the parser put there: mathjs's \<^verbatim>\<open>parse\<close>
  gives a number for a numeral and for \<^verbatim>\<open>NaN\<close> and \<^verbatim>\<open>Infinity\<close>, a boolean for
  \<^verbatim>\<open>true\<close> and \<^verbatim>\<open>false\<close>, a string for a quoted text, \<^verbatim>\<open>null\<close> for \<^verbatim>\<open>null\<close>, and
  \<^verbatim>\<open>undefined\<close> for \<^verbatim>\<open>undefined\<close> and for the empty text.
\<close>

datatype jsvalue =
    NumberValue number
  | BooleanValue bool
  | StringValue jsstring
  | NullValue
  | UndefinedValue

text \<open>
  \<^verbatim>\<open>MathNode\<close> is the parser's node: the three kinds the converter handles, with the
  fields it reads (\<^verbatim>\<open>op\<close> and \<^verbatim>\<open>args\<close>, \<^verbatim>\<open>value\<close>, \<^verbatim>\<open>content\<close>), and any other kind
  with its \<^verbatim>\<open>type\<close> string. \<^verbatim>\<open>TreeNode\<close> is the interface of lines 10 to 15; its
  field \<^verbatim>\<open>value\<close> is \<open>val\<close> here.
\<close>

datatype MathNode =
    OperatorNode jsstring "MathNode list"
  | ConstantNode jsvalue
  | ParenthesisNode MathNode
  | OtherNode jsstring

datatype TreeNode =
  TreeNode (val: jsstring) (left: "TreeNode option") (right: "TreeNode option")
           (isSubExpression: "bool option")

text \<open>
  What a \<^verbatim>\<open>throw\<close> carries: the \<^verbatim>\<open>Error\<close> of the default case with its message, the
  \<^verbatim>\<open>TypeError\<close> of reading a property (\<^verbatim>\<open>type\<close>, \<^verbatim>\<open>toString\<close>) from \<^verbatim>\<open>undefined\<close> or
  \<^verbatim>\<open>null\<close>, and the parser's error.
\<close>

datatype error = Error jsstring | TypeError | SyntaxError jsstring

text \<open>
  \<^verbatim>\<open>value.toString()\<close> (line 61): the method of the value's own type. A number is
  rendered by \<open>toString\<close>, a boolean is \<^verbatim>\<open>true\<close> or \<^verbatim>\<open>false\<close>, a string is itself;
  \<^verbatim>\<open>null\<close> and \<^verbatim>\<open>undefined\<close> have no properties, and the call throws a TypeError.
\<close>

fun valueToString :: "jsvalue \<Rightarrow> error + jsstring" where
  "valueToString (NumberValue x) = Inr (toString x)"
| "valueToString (BooleanValue b) = Inr (if b then str ''true'' else str ''false'')"
| "valueToString (StringValue s) = Inr s"
| "valueToString NullValue = Inl TypeError"
| "valueToString UndefinedValue = Inl TypeError"

section \<open>The tree converter\<close>

text \<open>
  \<^verbatim>\<open>convertToTree\<close> (lines 47 to 72). An array is truthy, so the test
  \<^verbatim>\<open>operatorNode.args ? ... : undefined\<close> always takes its first branch. The object
  literal evaluates \<^verbatim>\<open>left\<close> before \<^verbatim>\<open>right\<close>. \<^verbatim>\<open>args[i]\<close> beyond the array is
  \<^verbatim>\<open>undefined\<close>, and the recursive call then fails on \<^verbatim>\<open>node.type\<close> with a TypeError.
  The constant case fails where \<^verbatim>\<open>value.toString()\<close> does.
\<close>

fun convertToTree :: "MathNode \<Rightarrow> bool \<Rightarrow> error + TreeNode" where
  "convertToTree (OperatorNode opr []) isSub = Inl TypeError"
| "convertToTree (OperatorNode opr [a]) isSub =
     (case convertToTree a isSub of
        Inl e \<Rightarrow> Inl e
      | Inr l \<Rightarrow> Inl TypeError)"
| "convertToTree (OperatorNode opr (a # b # others)) isSub =
     (case convertToTree a isSub of
        Inl e \<Rightarrow> Inl e
      | Inr l \<Rightarrow>
          (case convertToTree b isSub of
             Inl e \<Rightarrow> Inl e
           | Inr r \<Rightarrow> Inr (TreeNode opr (Some l) (Some r) (Some isSub))))"
| "convertToTree (ConstantNode v) isSub =
     (case valueToString v of
        Inl e \<Rightarrow> Inl e
      | Inr text \<Rightarrow> Inr (TreeNode text None None (Some isSub)))"
| "convertToTree (ParenthesisNode content) isSub = convertToTree content True"
| "convertToTree (OtherNode ty) isSub = Inl (Error (str ''Unsupported node type: '' @ ty))"

section \<open>The entry point\<close>

text \<open>
  \<^verbatim>\<open>parse\<close> is mathjs's parser, a parameter here: it returns a node or throws.
  \<^verbatim>\<open>parseExpression\<close> (lines 31 to 39) catches whatever \<^verbatim>\<open>parse\<close> or
  \<^verbatim>\<open>convertToTree\<close> throws, writes it to the console and returns \<^verbatim>\<open>null\<close>.
  The console is the list of what \<^verbatim>\<open>console.error\<close> was called with.
\<close>

type_synonym parser = "jsstring \<Rightarrow> error + MathNode"
type_synonym console = "(jsstring \<times> error) list"

definition parseExpression :: "parser \<Rightarrow> jsstring \<Rightarrow> console \<Rightarrow> TreeNode option \<times> console" where
  "parseExpression parse expression con =
     (case parse expression of
        Inl e \<Rightarrow> (None, con @ [(str ''Invalid expression:'', e)])
      | Inr node \<Rightarrow>
          (case convertToTree node False of
             Inl e \<Rightarrow> (None, con @ [(str ''Invalid expression:'', e)])
           | Inr t \<Rightarrow> (Some t, con)))"

text \<open>
  \<^verbatim>\<open>handleSubmit\<close> (lines 86 to 91) on the component's state: the text of the input
  field and the tree on display.
\<close>

record app =
  expression :: jsstring
  tree :: "TreeNode option"
  console :: console

definition handleSubmit :: "parser \<Rightarrow> app \<Rightarrow> app" where
  "handleSubmit parse st =
     (let processedExpression = preprocessExpression (expression st);
          (treeData, con) = parseExpression parse processedExpression (console st)
      in st\<lparr>tree := treeData, console := con\<rparr>)"

section \<open>Notions of the specification\<close>

text \<open>The nodes of a produced tree, the root first, and the nodes below the root.\<close>

fun nodes :: "TreeNode \<Rightarrow> TreeNode list" where
  "nodes (TreeNode v l r s) =
     TreeNode v l r s #
     (case l of None \<Rightarrow> [] | Some t \<Rightarrow> nodes t) @
     (case r of None \<Rightarrow> [] | Some t \<Rightarrow> nodes t)"

definition descendants :: "TreeNode \<Rightarrow> TreeNode list" where
  "descendants t = tl (nodes t)"

text \<open>
  The binary-only invariant of one node: an operator with both children, or a number
  with none.
\<close>

definition binaryOnly :: "TreeNode \<Rightarrow> bool" where
  "binaryOnly t =
     ((\<not> parsesAsNumber (val t) \<and> left t \<noteq> None \<and> right t \<noteq> None) \<or>
      (parsesAsNumber (val t) \<and> left t = None \<and> right t = None))"

text \<open>
  The nodes of the parser's tree that \<open>convertToTree\<close> reads: the node itself, the
  first two operands of an operator node, the content of a parenthesis node, and so on
  below them.
\<close>

fun visited :: "MathNode \<Rightarrow> MathNode list" where
  "visited (OperatorNode opr []) = [OperatorNode opr []]"
| "visited (OperatorNode opr [a]) = OperatorNode opr [a] # visited a"
| "visited (OperatorNode opr (a # b # others)) =
     OperatorNode opr (a # b # others) # visited a @ visited b"
| "visited (ConstantNode v) = [ConstantNode v]"
| "visited (ParenthesisNode content) = ParenthesisNode content # visited content"
| "visited (OtherNode ty) = [OtherNode ty]"

fun isOther :: "MathNode \<Rightarrow> bool" where
  "isOther (OtherNode ty) = True"
| "isOther n = False"

fun operands :: "MathNode \<Rightarrow> nat option" where
  "operands (OperatorNode opr args) = Some (length args)"
| "operands n = None"

text \<open>A constant node whose value is \<^verbatim>\<open>null\<close> or \<^verbatim>\<open>undefined\<close>.\<close>

fun nullConstant :: "MathNode \<Rightarrow> bool" where
  "nullConstant (ConstantNode NullValue) = True"
| "nullConstant (ConstantNode UndefinedValue) = True"
| "nullConstant n = False"

text \<open>
  The nodes \<open>convertToTree\<close> is called on, in the order of the calls, up to the call
  that throws: the right operand is read only when the left one has been converted.
\<close>

fun reads :: "MathNode \<Rightarrow> bool \<Rightarrow> MathNode list" where
  "reads (OperatorNode opr []) isSub = [OperatorNode opr []]"
| "reads (OperatorNode opr [a]) isSub = OperatorNode opr [a] # reads a isSub"
| "reads (OperatorNode opr (a # b # others)) isSub =
     OperatorNode opr (a # b # others) # reads a isSub @
     (case convertToTree a isSub of Inl e \<Rightarrow> [] | Inr l \<Rightarrow> reads b isSub)"
| "reads (ConstantNode v) isSub = [ConstantNode v]"
| "reads (ParenthesisNode content) isSub = ParenthesisNode content # reads content True"
| "reads (OtherNode ty) isSub = [OtherNode ty]"

text \<open>The number of tree nodes a parser's node gives rise to.\<close>

fun emitted :: "MathNode \<Rightarrow> nat" where
  "emitted (OperatorNode opr []) = 1"
| "emitted (OperatorNode opr [a]) = 1 + emitted a"
| "emitted (OperatorNode opr (a # b # others)) = 1 + emitted a + emitted b"
| "emitted (ConstantNode v) = 1"
| "emitted (ParenthesisNode content) = emitted content"
| "emitted (OtherNode ty) = 0"

text \<open>
  What mathjs's \<^verbatim>\<open>parse\<close> returns on three inputs, to run the entry point on: the
  product of scenario 2, a unary minus, and a syntax error everywhere else. \<open>num d\<close>
  is the constant node of the number \<open>d\<close>, for \<open>d\<close> from 1 to 9.
\<close>

definition num :: "nat \<Rightarrow> MathNode" where
  "num d = ConstantNode (NumberValue (Finite False d 1))"

definition sampleParse :: parser where
  "sampleParse s =
     (if s = str ''2 * (3+4)'' then
        Inr (OperatorNode (str ''*'')
               [num 2, ParenthesisNode (OperatorNode (str ''+'') [num 3, num 4])])
      else if s = str ''-5'' then Inr (OperatorNode (str ''-'') [num 5])
      else Inl (SyntaxError (str ''Unexpected end of expression'')))"

section \<open>Evaluation\<close>

lemmas eval_defs =
  preprocessExpression_def digitsThenParen_def parenThenDigits_def times_def
  str_def expand_def isDigit_def isSpace_def

lemmas number_defs =
  parsesAsNumber_def trim_def strDecimalLiteral_def strUnsignedDecimalLiteral_def
  nonDecimalIntegerLiteral_def str_def isSpace_def isDigit_def

lemmas render_defs =
  num_def unsignedToString_def digitsOf.simps digitChar_def str_def

section \<open>What the two multiplication patterns match\<close>

text \<open>
  A match of the matcher has the shape the pattern describes: the captures are runs of
  digits and of white space and the parenthesis, and they are a prefix of the subject.
\<close>

lemma push_SomeD: "push c r = Some (caps, rest) \<Longrightarrow> \<exists>caps'. r = Some (caps', rest)"
  by (cases "(c, r)" rule: push.cases) auto

lemma openGroup_SomeD:
  "openGroup r = Some (caps, rest) \<Longrightarrow> \<exists>caps'. r = Some (caps', rest) \<and> caps = [] # caps'"
  by (cases r) auto

lemma exec_spaces_then:
  "exec [[Star Space, Once (Lit p)]] s = Some (caps, rest) \<Longrightarrow>
   \<exists>ws. caps = [ws @ [p]] \<and> list_all isSpace ws \<and> s = ws @ p # rest"
proof (induction s arbitrary: caps rest)
  case Nil
  then show ?case by simp
next
  case (Cons c cs)
  show ?case
  proof (cases "isSpace c \<and> exec [[Star Space, Once (Lit p)]] cs \<noteq> None")
    case True
    then obtain caps' rest' where r: "exec [[Star Space, Once (Lit p)]] cs = Some (caps', rest')"
      by auto
    from Cons.IH [OF r] obtain ws where ws: "caps' = [ws @ [p]]" "list_all isSpace ws" "cs = ws @ p # rest'"
      by blast
    from Cons.prems True r ws have "caps = [(c # ws) @ [p]]" "rest = rest'"
      by auto
    with ws True show ?thesis
      by (intro exI [of _ "c # ws"]) simp
  next
    case False
    with Cons.prems have "exec [[Once (Lit p)]] (c # cs) = Some (caps, rest)"
      by (auto split: option.splits if_splits)
    then have "c = p" "caps = [[p]]" "rest = cs"
      by (auto split: if_splits)
    then show ?thesis
      by (intro exI [of _ "[]"]) simp
  qed
qed


lemma exec_digits:
  "exec [[Star Digit]] s = Some (caps, rest) \<Longrightarrow>
   \<exists>ds. caps = [ds] \<and> list_all isDigit ds \<and> s = ds @ rest"
proof (induction s arbitrary: caps rest)
  case Nil
  then show ?case by simp
next
  case (Cons c cs)
  show ?case
  proof (cases "isDigit c \<and> exec [[Star Digit]] cs \<noteq> None")
    case True
    then obtain caps' rest' where r: "exec [[Star Digit]] cs = Some (caps', rest')"
      by auto
    from Cons.IH [OF r] obtain ds where ds: "caps' = [ds]" "list_all isDigit ds" "cs = ds @ rest'"
      by blast
    from Cons.prems True r ds have "caps = [c # ds]" "rest = rest'"
      by auto
    with ds True show ?thesis
      by (intro exI [of _ "c # ds"]) simp
  next
    case False
    with Cons.prems have "caps = [[]]" "rest = c # cs"
      by (auto split: option.splits if_splits)
    then show ?thesis
      by (intro exI [of _ "[]"]) simp
  qed
qed

lemma exec_spaces_digits:
  "exec [[Star Space, Plus Digit]] s = Some (caps, rest) \<Longrightarrow>
   \<exists>ws ds. caps = [ws @ ds] \<and> list_all isSpace ws \<and> ds \<noteq> [] \<and> list_all isDigit ds \<and>
           s = ws @ ds @ rest"
proof (induction s arbitrary: caps rest)
  case Nil
  then show ?case by simp
next
  case (Cons c cs)
  show ?case
  proof (cases "isSpace c \<and> exec [[Star Space, Plus Digit]] cs \<noteq> None")
    case True
    then obtain caps' rest' where r: "exec [[Star Space, Plus Digit]] cs = Some (caps', rest')"
      by auto
    from Cons.IH [OF r] obtain ws ds where
      w: "caps' = [ws @ ds]" "list_all isSpace ws" "ds \<noteq> []" "list_all isDigit ds"
         "cs = ws @ ds @ rest'"
      by blast
    from Cons.prems True r w have "caps = [(c # ws) @ ds]" "rest = rest'"
      by auto
    with w True show ?thesis
      by (intro exI [of _ "c # ws"] exI [of _ ds]) simp
  next
    case False
    with Cons.prems have p: "exec [[Plus Digit]] (c # cs) = Some (caps, rest)"
      by (auto split: option.splits if_splits)
    then have d: "isDigit c"
      by (auto split: if_splits)
    with p have "push c (exec [[Star Digit]] cs) = Some (caps, rest)"
      by simp
    then obtain caps' where r: "exec [[Star Digit]] cs = Some (caps', rest)"
      using push_SomeD by blast
    from exec_digits [OF r] obtain ds where ds: "caps' = [ds]" "list_all isDigit ds" "cs = ds @ rest"
      by blast
    from p d r ds have "caps = [c # ds]"
      by auto
    with ds d show ?thesis
      by (intro exI [of _ "[]"] exI [of _ "c # ds"]) simp
  qed
qed

lemma exec_digits_spaces_then:
  "exec [[Star Digit], [Star Space, Once (Lit p)]] s = Some (caps, rest) \<Longrightarrow>
   \<exists>ds ws. caps = [ds, ws @ [p]] \<and> list_all isDigit ds \<and> list_all isSpace ws \<and>
           s = ds @ ws @ p # rest"
proof (induction s arbitrary: caps rest)
  case Nil
  then show ?case by simp
next
  case (Cons c cs)
  show ?case
  proof (cases "isDigit c \<and> exec [[Star Digit], [Star Space, Once (Lit p)]] cs \<noteq> None")
    case True
    then obtain caps' rest' where
      r: "exec [[Star Digit], [Star Space, Once (Lit p)]] cs = Some (caps', rest')"
      by auto
    from Cons.IH [OF r] obtain ds ws where
      w: "caps' = [ds, ws @ [p]]" "list_all isDigit ds" "list_all isSpace ws"
         "cs = ds @ ws @ p # rest'"
      by blast
    from Cons.prems True r w have "caps = [c # ds, ws @ [p]]" "rest = rest'"
      by auto
    with w True show ?thesis
      by (intro exI [of _ "c # ds"] exI [of _ ws]) simp
  next
    case False
    with Cons.prems have
      "openGroup (exec [[Star Space, Once (Lit p)]] (c # cs)) = Some (caps, rest)"
      by (auto split: option.splits if_splits)
    then obtain caps' where
      r: "exec [[Star Space, Once (Lit p)]] (c # cs) = Some (caps', rest)" and c: "caps = [] # caps'"
      using openGroup_SomeD by blast
    from exec_spaces_then [OF r] obtain ws where
      "caps' = [ws @ [p]]" "list_all isSpace ws" "c # cs = ws @ p # rest"
      by blast
    with c show ?thesis
      by (intro exI [of _ "[]"] exI [of _ ws]) simp
  qed
qed

lemma digitsThenParen_match:
  assumes "exec digitsThenParen s = Some (caps, rest)"
  shows "\<exists>ds ws. ds \<noteq> [] \<and> list_all isDigit ds \<and> list_all isSpace ws \<and>
           caps = [ds, ws @ [0x28]] \<and> s = ds @ ws @ 0x28 # rest"
proof (cases s)
  case Nil
  with assms show ?thesis by (simp add: digitsThenParen_def)
next
  case (Cons c cs)
  with assms have d: "isDigit c"
    by (auto simp: digitsThenParen_def split: if_splits)
  with assms Cons have
    "push c (exec [[Star Digit], [Star Space, Once (Lit 0x28)]] cs) = Some (caps, rest)"
    by (simp add: digitsThenParen_def)
  then obtain caps' where
    r: "exec [[Star Digit], [Star Space, Once (Lit 0x28)]] cs = Some (caps', rest)"
    using push_SomeD by blast
  from exec_digits_spaces_then [OF r] obtain ds ws where
    w: "caps' = [ds, ws @ [0x28]]" "list_all isDigit ds" "list_all isSpace ws"
       "cs = ds @ ws @ 0x28 # rest"
    by blast
  from assms Cons d r w have "caps = [c # ds, ws @ [0x28]]"
    by (auto simp: digitsThenParen_def)
  with w d Cons show ?thesis
    by (intro exI [of _ "c # ds"] exI [of _ ws]) simp
qed

lemma parenThenDigits_match:
  assumes "exec parenThenDigits s = Some (caps, rest)"
  shows "\<exists>ws ds. ds \<noteq> [] \<and> list_all isDigit ds \<and> list_all isSpace ws \<and>
           caps = [[0x29], ws @ ds] \<and> s = 0x29 # ws @ ds @ rest"
proof (cases s)
  case Nil
  with assms show ?thesis by (simp add: parenThenDigits_def)
next
  case (Cons c cs)
  with assms have c: "c = 0x29"
    by (auto simp: parenThenDigits_def split: if_splits)
  with assms Cons have
    "push c (openGroup (exec [[Star Space, Plus Digit]] cs)) = Some (caps, rest)"
    by (simp add: parenThenDigits_def)
  then obtain caps' where
    r: "exec [[Star Space, Plus Digit]] cs = Some (caps', rest)"
    using push_SomeD openGroup_SomeD by blast
  from exec_spaces_digits [OF r] obtain ws ds where
    w: "caps' = [ws @ ds]" "list_all isSpace ws" "ds \<noteq> []" "list_all isDigit ds"
       "cs = ws @ ds @ rest"
    by blast
  from assms Cons c r w have "caps = [[0x29], ws @ ds]"
    by (auto simp: parenThenDigits_def)
  with w c Cons show ?thesis
    by (intro exI [of _ ws] exI [of _ ds]) simp
qed

section \<open>Subjects without digits\<close>

lemma replaceAll_char:
  "replaceAll [[Once (Lit x)]] [Text [y]] s = map (\<lambda>c. if c = x then y else c) s"
  by (induction s) (simp_all add: expand_def)

lemma digitsThenParen_no_digit:
  "\<forall>c \<in> set s. \<not> isDigit c \<Longrightarrow> exec digitsThenParen s = None"
proof (rule ccontr)
  assume nd: "\<forall>c \<in> set s. \<not> isDigit c" and "exec digitsThenParen s \<noteq> None"
  then obtain caps rest where "exec digitsThenParen s = Some (caps, rest)"
    by auto
  from digitsThenParen_match [OF this] obtain ds ws where
    "ds \<noteq> []" "list_all isDigit ds" "s = ds @ ws @ 0x28 # rest"
    by blast
  with nd show False
    by (cases ds) auto
qed

lemma parenThenDigits_no_digit:
  "\<forall>c \<in> set s. \<not> isDigit c \<Longrightarrow> exec parenThenDigits s = None"
proof (rule ccontr)
  assume nd: "\<forall>c \<in> set s. \<not> isDigit c" and "exec parenThenDigits s \<noteq> None"
  then obtain caps rest where "exec parenThenDigits s = Some (caps, rest)"
    by auto
  from parenThenDigits_match [OF this] obtain ws ds where
    "ds \<noteq> []" "list_all isDigit ds" "s = 0x29 # ws @ ds @ rest"
    by blast
  with nd show False
    by (cases ds) auto
qed

lemma replaceAll_no_match:
  "(\<And>u. set u \<subseteq> set s \<Longrightarrow> exec re u = None) \<Longrightarrow> replaceAll re tmpl s = s"
proof (induction s)
  case Nil
  from Nil [of "[]"] show ?case by simp
next
  case (Cons c cs)
  have "exec re (c # cs) = None"
    by (rule Cons.prems) simp
  moreover have "replaceAll re tmpl cs = cs"
    by (rule Cons.IH) (rule Cons.prems, auto)
  ultimately show ?case by simp
qed

lemma times_rules_no_digit:
  assumes "\<forall>c \<in> set s. \<not> isDigit c"
  shows "replaceAll digitsThenParen times s = s" and "replaceAll parenThenDigits times s = s"
  using assms
  by (auto intro!: replaceAll_no_match digitsThenParen_no_digit parenThenDigits_no_digit)

lemma preprocess_no_digit:
  assumes "\<forall>c \<in> set s. \<not> isDigit c"
  shows "preprocessExpression s =
         map (\<lambda>c. if c = 0x7B \<or> c = 0x5B then 0x28
                  else if c = 0x7D \<or> c = 0x5D then 0x29
                  else if c = 0x2013 then 0x2D else c) s"
proof -
  let ?b = "replaceAll [[Once (Lit 0x5D)]] [Text (str '')'')]
    (replaceAll [[Once (Lit 0x7D)]] [Text (str '')'')]
    (replaceAll [[Once (Lit 0x5B)]] [Text (str ''('')]
    (replaceAll [[Once (Lit 0x7B)]] [Text (str ''('')] s)))"
  have b: "?b = map (\<lambda>c. if c = 0x7B \<or> c = 0x5B then 0x28
                         else if c = 0x7D \<or> c = 0x5D then 0x29 else c) s"
    by (simp add: replaceAll_char str_def)
  have nd: "\<forall>c \<in> set ?b. \<not> isDigit c"
    using assms unfolding b by (auto simp: isDigit_def)
  have "preprocessExpression s = replaceAll [[Once (Lit 0x2013)]] [Text (str ''-'')] ?b"
    unfolding preprocessExpression_def using times_rules_no_digit [OF nd]
      times_rules_no_digit(2) [of "replaceAll digitsThenParen times ?b"]
    by simp
  also have "\<dots> = map (\<lambda>c. if c = 0x7B \<or> c = 0x5B then 0x28
                  else if c = 0x7D \<or> c = 0x5D then 0x29
                  else if c = 0x2013 then 0x2D else c) s"
    unfolding b by (simp add: replaceAll_char str_def)
  finally show ?thesis .
qed

section \<open>The rendering of a number parses as a number\<close>

lemma digit_not_space: "isDigit c \<Longrightarrow> \<not> isSpace c"
  unfolding isDigit_def isSpace_def by (auto simp: word_le_nat_alt)

lemma digitChar_digit: "d < 10 \<Longrightarrow> isDigit (digitChar d)"
proof -
  assume "d < 10"
  then have "d \<in> {0, 1, 2, 3, 4, 5, 6, 7, 8, 9}" by auto
  then show ?thesis
    by (auto simp: isDigit_def digitChar_def)
qed

lemma digitsOf_digits: "digitsOf n \<noteq> [] \<and> list_all isDigit (digitsOf n)"
proof (induction n rule: digitsOf.induct)
  case (1 n)
  show ?case
  proof (cases "n < 10")
    case True
    then show ?thesis
      by (subst (1 2) digitsOf.simps) (simp add: digitChar_digit)
  next
    case False
    with 1 show ?thesis
      by (subst (1 2) digitsOf.simps) (simp add: digitChar_digit)
  qed
qed

lemma trim_id:
  assumes "x \<noteq> []" "\<not> isSpace (hd x)" "\<not> isSpace (last x)"
  shows "trim x = x"
proof -
  have "dropWhile isSpace x = x"
    using assms by (simp add: dropWhile_eq_self_iff)
  moreover have "dropWhile isSpace (rev x) = rev x"
    using assms by (simp add: dropWhile_eq_self_iff hd_rev)
  ultimately show ?thesis
    by (simp add: trim_def)
qed

lemma exponent_ok:
  "es \<noteq> [] \<Longrightarrow> list_all isDigit es \<Longrightarrow> sg = 0x2B \<or> sg = 0x2D \<Longrightarrow>
   exponentPartOpt (0x65 # sg # es)"
  by (auto simp: exponentPartOpt_def signedInteger_def allDigits1_def)

lemma literal_integer:
  assumes "ds \<noteq> []" "list_all isDigit ds"
  shows "strUnsignedDecimalLiteral ds"
proof -
  have t: "takeWhile isDigit ds = ds" "dropWhile isDigit ds = []"
    using assms by (simp_all add: list_all_iff)
  show ?thesis
    unfolding strUnsignedDecimalLiteral_def Let_def t using assms by simp
qed

lemma literal_exponent:
  assumes "ds \<noteq> []" "list_all isDigit ds" "exponentPartOpt (0x65 # ex)"
  shows "strUnsignedDecimalLiteral (ds @ 0x65 # ex)"
proof -
  have e: "\<not> isDigit (0x65 :: jschar)"
    by (simp add: isDigit_def)
  have t: "takeWhile isDigit (ds @ 0x65 # ex) = ds"
    "dropWhile isDigit (ds @ 0x65 # ex) = 0x65 # ex"
    using assms e by (simp_all add: list_all_iff)
  show ?thesis
    unfolding strUnsignedDecimalLiteral_def Let_def t using assms by simp
qed

lemma literal_fraction:
  assumes "list_all isDigit ip" "fp \<noteq> []" "list_all isDigit fp"
    and "ex = [] \<or> (\<exists>ex'. ex = 0x65 # ex' \<and> exponentPartOpt ex)"
  shows "strUnsignedDecimalLiteral (ip @ 0x2E # fp @ ex)"
proof -
  have e: "\<not> isDigit (0x65 :: jschar)" "\<not> isDigit (0x2E :: jschar)"
    by (simp_all add: isDigit_def)
  have 1: "takeWhile isDigit (ip @ 0x2E # fp @ ex) = ip"
    "dropWhile isDigit (ip @ 0x2E # fp @ ex) = 0x2E # fp @ ex"
    using assms e by (simp_all add: list_all_iff)
  have 2: "takeWhile isDigit (fp @ ex) = fp" "dropWhile isDigit (fp @ ex) = ex"
    using assms e by (auto simp: list_all_iff)
  have "exponentPartOpt ex"
    using assms(4) by (auto simp: exponentPartOpt_def)
  then show ?thesis
    unfolding strUnsignedDecimalLiteral_def Let_def 1 using assms(2) by (simp add: 2)
qed


lemma literal_numeric:
  assumes "u \<noteq> []" "isDigit (hd u)" "isDigit (last u)" "strUnsignedDecimalLiteral u"
  shows "parsesAsNumber u" and "parsesAsNumber (0x2D # u)"
proof -
  have sp: "\<not> isSpace (hd u)" "\<not> isSpace (last u)"
    using assms by (simp_all add: digit_not_space)
  have sg: "hd u \<noteq> 0x2B" "hd u \<noteq> 0x2D"
    using assms(2) by (auto simp: isDigit_def)
  have "trim u = u"
    using assms(1) sp by (rule trim_id)
  moreover have "strDecimalLiteral u"
    using assms(1,4) sg by (cases u) (simp_all add: strDecimalLiteral_def)
  ultimately show "parsesAsNumber u"
    by (simp add: parsesAsNumber_def)
  have "\<not> isSpace (0x2D :: jschar)"
    by (simp add: isSpace_def)
  then have "trim (0x2D # u) = 0x2D # u"
    using assms(1) sp by (intro trim_id) simp_all
  moreover have "strDecimalLiteral (0x2D # u)"
    using assms(4) by (simp add: strDecimalLiteral_def)
  ultimately show "parsesAsNumber (0x2D # u)"
    by (simp add: parsesAsNumber_def)
qed

lemma digits_ends: "ds \<noteq> [] \<Longrightarrow> list_all isDigit ds \<Longrightarrow> isDigit (hd ds) \<and> isDigit (last ds)"
  by (simp add: list_all_iff)

lemma unsignedToString_literal:
  "unsignedToString s n \<noteq> [] \<and> isDigit (hd (unsignedToString s n)) \<and>
   isDigit (last (unsignedToString s n)) \<and> strUnsignedDecimalLiteral (unsignedToString s n)"
proof -
  define ds where "ds = digitsOf s"
  define es where "es = digitsOf (nat \<bar>n - 1\<bar>)"
  have ds: "ds \<noteq> []" "list_all isDigit ds" and es: "es \<noteq> []" "list_all isDigit es"
    by (simp_all add: ds_def es_def digitsOf_digits)
  note de = digits_ends [OF ds] digits_ends [OF es]
  have zero: "isDigit (0x30 :: jschar)"
    by (simp add: isDigit_def)
  consider
      (int) "- 5 \<le> n" "n \<le> 21" "int (length ds) \<le> n"
    | (frac) "- 5 \<le> n" "n \<le> 21" "n < int (length ds)" "0 < n"
    | (small) "- 5 \<le> n" "n \<le> 21" "n < int (length ds)" "n \<le> 0"
    | (exp1) "\<not> (- 5 \<le> n \<and> n \<le> 21)" "length ds = 1"
    | (exp) "\<not> (- 5 \<le> n \<and> n \<le> 21)" "length ds \<noteq> 1"
    by linarith
  then show ?thesis
  proof cases
    case int
    then have u: "unsignedToString s n = ds @ replicate (nat (n - int (length ds))) 0x30"
      by (simp add: unsignedToString_def ds_def [symmetric])
    have "list_all isDigit (ds @ replicate (nat (n - int (length ds))) 0x30)"
      using ds zero by (auto simp: list_all_iff)
    with ds show ?thesis
      unfolding u by (intro conjI literal_integer digits_ends [THEN conjunct1] digits_ends [THEN conjunct2]) simp_all
  next
    case frac
    then have u: "unsignedToString s n = take (nat n) ds @ 0x2E # drop (nat n) ds"
      by (simp add: unsignedToString_def ds_def [symmetric] str_def)
    have t: "take (nat n) ds \<noteq> []" "list_all isDigit (take (nat n) ds)"
      and d: "drop (nat n) ds \<noteq> []" "list_all isDigit (drop (nat n) ds)"
      using frac ds by (auto simp: list_all_iff dest: in_set_takeD in_set_dropD)
    have "strUnsignedDecimalLiteral (take (nat n) ds @ 0x2E # drop (nat n) ds @ [])"
      using t d by (intro literal_fraction) simp_all
    with digits_ends [OF t] digits_ends [OF d] t d show ?thesis
      unfolding u by simp
  next
    case small
    let ?fp = "replicate (nat (- n)) 0x30 @ ds"
    from small have u: "unsignedToString s n = [0x30] @ 0x2E # ?fp"
      by (simp add: unsignedToString_def ds_def [symmetric] str_def)
    have fp: "?fp \<noteq> []" "list_all isDigit ?fp"
      using ds zero by (auto simp: list_all_iff)
    have "strUnsignedDecimalLiteral ([0x30] @ 0x2E # ?fp @ [])"
      using fp zero by (intro literal_fraction) simp_all
    with digits_ends [OF fp] ds zero show ?thesis
      unfolding u by simp
  next
    case exp1
    define sg :: jschar where "sg = (if n - 1 < 0 then 0x2D else 0x2B)"
    from exp1 have c: "(- 5 \<le> n \<and> n \<le> 21) = False"
      by simp
    from exp1(2) have u: "unsignedToString s n = ds @ 0x65 # sg # es"
      unfolding unsignedToString_def Let_def ds_def [symmetric] es_def [symmetric] c
      by (simp add: str_def sg_def)
    have "exponentPartOpt (0x65 # sg # es)"
      using es by (intro exponent_ok) (simp_all add: sg_def)
    then have "strUnsignedDecimalLiteral (ds @ 0x65 # sg # es)"
      using ds by (intro literal_exponent)
    with de ds es show ?thesis
      unfolding u by simp
  next
    case exp
    define sg :: jschar where "sg = (if n - 1 < 0 then 0x2D else 0x2B)"
    from exp have c: "(- 5 \<le> n \<and> n \<le> 21) = False"
      by simp
    from exp(2) have u: "unsignedToString s n = take 1 ds @ 0x2E # drop 1 ds @ 0x65 # sg # es"
      unfolding unsignedToString_def Let_def ds_def [symmetric] es_def [symmetric] c
      by (simp add: str_def sg_def)
    have t: "take 1 ds \<noteq> []" "list_all isDigit (take 1 ds)"
      and d: "drop 1 ds \<noteq> []" "list_all isDigit (drop 1 ds)"
      using exp ds by (auto simp: list_all_iff dest: in_set_takeD in_set_dropD) (cases ds, auto)+
    have "exponentPartOpt (0x65 # sg # es)"
      using es by (intro exponent_ok) (simp_all add: sg_def)
    then have "strUnsignedDecimalLiteral (take 1 ds @ 0x2E # drop 1 ds @ 0x65 # sg # es)"
      using t d by (intro literal_fraction) simp_all
    with digits_ends [OF t] de es t(1) show ?thesis
      unfolding u by (simp add: hd_append)
  qed
qed

lemma toString_numeric: "v \<noteq> NaN \<Longrightarrow> parsesAsNumber (toString v)"
proof (cases v)
  case NaN
  assume "v \<noteq> NaN"
  with NaN show ?thesis by simp
next
  case PosInfinity
  have "parsesAsNumber (str ''Infinity'')"
    by code_simp
  with PosInfinity show ?thesis by simp
next
  case NegInfinity
  have "parsesAsNumber (str ''-Infinity'')"
    by code_simp
  with NegInfinity show ?thesis by simp
next
  case (Finite neg s n)
  have z: "parsesAsNumber (str ''0'')"
    by code_simp
  from unsignedToString_literal [of s n] literal_numeric [of "unsignedToString s n"]
  have "parsesAsNumber (unsignedToString s n)" "parsesAsNumber (0x2D # unsignedToString s n)"
    by blast+
  with z Finite show ?thesis
    by (simp add: str_def)
qed

section \<open>Properties of the converter\<close>

lemma convert_paren_flag:
  "convertToTree n True = Inr t \<Longrightarrow> \<forall>m \<in> set (nodes t). isSubExpression m = Some True"
  by (induction n "True" arbitrary: t rule: convertToTree.induct)
     (auto split: sum.splits)

lemma nodes_self: "t \<in> set (nodes t)"
  by (cases t) simp

lemma convert_size:
  "convertToTree n f = Inr t \<Longrightarrow> length (nodes t) = emitted n"
  by (induction n f arbitrary: t rule: convertToTree.induct) (auto split: sum.splits)

lemma convert_origin:
  "convertToTree n f = Inr t \<Longrightarrow> m \<in> set (nodes t) \<Longrightarrow>
   (\<exists>opr args. OperatorNode opr args \<in> set (reads n f) \<and> val m = opr \<and>
      left m \<noteq> None \<and> right m \<noteq> None) \<or>
   (\<exists>v. ConstantNode v \<in> set (reads n f) \<and> valueToString v = Inr (val m) \<and>
      left m = None \<and> right m = None)"
proof (induction n f arbitrary: t rule: convertToTree.induct)
  case (3 opr a b others isSub)
  then obtain l r where l: "convertToTree a isSub = Inr l" and r: "convertToTree b isSub = Inr r"
    and t: "t = TreeNode opr (Some l) (Some r) (Some isSub)"
    by (auto split: sum.splits)
  have rd: "set (reads (OperatorNode opr (a # b # others)) isSub) =
      insert (OperatorNode opr (a # b # others)) (set (reads a isSub) \<union> set (reads b isSub))"
    using l by simp
  from "3.prems"(2) t consider "m = t" | "m \<in> set (nodes l)" | "m \<in> set (nodes r)"
    by auto
  then show ?case
  proof cases
    case 1
    with t show ?thesis
      unfolding rd by auto
  next
    case 2
    from "3.IH"(1) [OF l 2] show ?thesis
      unfolding rd by blast
  next
    case 3
    from "3.IH"(2) [OF l r 3] show ?thesis
      unfolding rd by blast
  qed
next
  case (4 v isSub)
  then show ?case
    by (auto split: sum.splits)
next
  case (5 content isSub)
  then have "convertToTree content True = Inr t"
    by simp
  from "5.IH" [OF this "5.prems"(2)] show ?case
    by auto
qed (auto split: sum.splits)

lemma convert_error_kind:
  "convertToTree n f = Inl e \<Longrightarrow>
   e = TypeError \<or> (\<exists>ty. e = Error (str ''Unsupported node type: '' @ ty))"
proof (induction n f arbitrary: e rule: convertToTree.induct)
  case (4 v isSub)
  then show ?case
    by (cases v) auto
qed (auto split: sum.splits)

lemma convert_unsupported:
  "(convertToTree n f = Inl (Error (str ''Unsupported node type: '' @ ty))) =
   (OtherNode ty \<in> set (reads n f))"
proof (induction n f rule: convertToTree.induct)
  case (4 v isSub)
  then show ?case
    by (cases v) auto
qed (auto split: sum.splits)

lemma convert_succeeds:
  "(\<exists>t. convertToTree n f = Inr t) =
   (\<forall>m \<in> set (reads n f).
      \<not> isOther m \<and> operands m \<noteq> Some 0 \<and> operands m \<noteq> Some 1 \<and> \<not> nullConstant m)"
proof (induction n f rule: convertToTree.induct)
  case (4 v isSub)
  then show ?case
    by (cases v) auto
qed (auto split: sum.splits)

lemma isOther_iff: "isOther m = (\<exists>ty. m = OtherNode ty)"
  by (cases m) auto

lemma convert_fails:
  "(\<exists>e. convertToTree n f = Inl e) =
   (\<exists>m \<in> set (visited n).
      isOther m \<or> operands m = Some 0 \<or> operands m = Some 1 \<or> nullConstant m)"
proof (induction n f rule: convertToTree.induct)
  case (4 v isSub)
  then show ?case
    by (cases v) auto
qed (auto split: sum.splits)

lemma convert_monotone:
  "convertToTree n f = Inr t \<Longrightarrow> m \<in> set (nodes t) \<Longrightarrow> isSubExpression m = Some True \<Longrightarrow>
   d \<in> set (nodes m) \<Longrightarrow> isSubExpression d = Some True"
proof (induction n f arbitrary: t rule: convertToTree.induct)
  case (3 opr a b others isSub)
  then obtain l r where l: "convertToTree a isSub = Inr l" and r: "convertToTree b isSub = Inr r"
    and t: "t = TreeNode opr (Some l) (Some r) (Some isSub)"
    by (auto split: sum.splits)
  from "3.prems"(2) t consider "m = t" | "m \<in> set (nodes l)" | "m \<in> set (nodes r)"
    by auto
  then show ?case
  proof cases
    case 1
    with "3.prems" t have "isSub" by simp
    with l r have "\<forall>x \<in> set (nodes l). isSubExpression x = Some True"
      "\<forall>x \<in> set (nodes r). isSubExpression x = Some True"
      by (auto dest: convert_paren_flag)
    with 1 t "3.prems" show ?thesis by auto
  next
    case 2
    with "3.IH"(1) l "3.prems" show ?thesis by blast
  next
    case 3
    from "3.IH"(2) [OF l r 3 "3.prems"(3,4)] show ?thesis .
  qed
qed (auto split: sum.splits)

section \<open>The binary-only invariant\<close>

text \<open>
  C1, as the code has it. In a tree that \<open>convertToTree\<close> returns, a node has both
  children and the symbol of an operator node read as its value, or it has no child
  and the text of a constant read as its value; no node has one child. A node with
  children keeps the invariant exactly when its own symbol does not parse as a number,
  as none of \<^verbatim>\<open>+ - * / ^\<close> does. A node without children keeps it exactly when its own
  text parses as a number, as the text of every number other than NaN does.
\<close>

theorem binary_only_invariant:
  assumes "convertToTree node isSub = Inr t" and "m \<in> set (nodes t)"
  shows "(\<exists>opr args. OperatorNode opr args \<in> set (reads node isSub) \<and> val m = opr \<and>
            left m \<noteq> None \<and> right m \<noteq> None \<and>
            binaryOnly m = (\<not> parsesAsNumber opr) \<and>
            (opr \<in> {str ''+'', str ''-'', str ''*'', str ''/'', str ''^''} \<longrightarrow> binaryOnly m)) \<or>
         (\<exists>v. ConstantNode v \<in> set (reads node isSub) \<and> valueToString v = Inr (val m) \<and>
            left m = None \<and> right m = None \<and>
            binaryOnly m = parsesAsNumber (val m) \<and>
            (\<forall>x. v = NumberValue x \<and> x \<noteq> NaN \<longrightarrow> binaryOnly m))"
proof -
  have sym: "\<not> parsesAsNumber (str ''+'')" "\<not> parsesAsNumber (str ''-'')"
    "\<not> parsesAsNumber (str ''*'')" "\<not> parsesAsNumber (str ''/'')"
    "\<not> parsesAsNumber (str ''^'')"
    by (simp_all add: number_defs)
  from convert_origin [OF assms] show ?thesis
  proof
    assume "\<exists>opr args. OperatorNode opr args \<in> set (reads node isSub) \<and> val m = opr \<and>
      left m \<noteq> None \<and> right m \<noteq> None"
    then obtain opr args where o: "OperatorNode opr args \<in> set (reads node isSub)"
      "val m = opr" "left m \<noteq> None" "right m \<noteq> None"
      by blast
    then have b: "binaryOnly m = (\<not> parsesAsNumber opr)"
      by (auto simp: binaryOnly_def)
    with sym have "opr \<in> {str ''+'', str ''-'', str ''*'', str ''/'', str ''^''} \<longrightarrow> binaryOnly m"
      by auto
    with o b show ?thesis
      by blast
  next
    assume "\<exists>v. ConstantNode v \<in> set (reads node isSub) \<and> valueToString v = Inr (val m) \<and>
      left m = None \<and> right m = None"
    then obtain v where c: "ConstantNode v \<in> set (reads node isSub)"
      "valueToString v = Inr (val m)" "left m = None" "right m = None"
      by blast
    then have b: "binaryOnly m = parsesAsNumber (val m)"
      by (auto simp: binaryOnly_def)
    have "\<forall>x. v = NumberValue x \<and> x \<noteq> NaN \<longrightarrow> binaryOnly m"
    proof (intro allI impI)
      fix x assume "v = NumberValue x \<and> x \<noteq> NaN"
      with c(2) have "val m = toString x" "x \<noteq> NaN"
        by auto
      with b show "binaryOnly m"
        by (simp add: toString_numeric)
    qed
    with c b show ?thesis
      by blast
  qed
qed

text \<open>
  In the tree of the sum of 3 and 4, the leaf \<^verbatim>\<open>3\<close> is the text of a number and the
  root has the symbol \<^verbatim>\<open>+\<close>: both keep the invariant.
\<close>

theorem binary_only_invariant_witness:
  "convertToTree (OperatorNode (str ''+'') [num 3, num 4]) False =
     Inr (TreeNode (str ''+'') (Some (TreeNode (str ''3'') None None (Some False)))
            (Some (TreeNode (str ''4'') None None (Some False))) (Some False)) \<and>
   TreeNode (str ''3'') None None (Some False) \<in>
     set (nodes (TreeNode (str ''+'') (Some (TreeNode (str ''3'') None None (Some False)))
            (Some (TreeNode (str ''4'') None None (Some False))) (Some False))) \<and>
   num 3 \<in> set (reads (OperatorNode (str ''+'') [num 3, num 4]) False) \<and>
   binaryOnly (TreeNode (str ''3'') None None (Some False))"
proof -
  let ?n = "OperatorNode (str ''+'') [num 3, num 4]"
  let ?m = "TreeNode (str ''3'') None None (Some False)"
  let ?t = "TreeNode (str ''+'') (Some ?m)
            (Some (TreeNode (str ''4'') None None (Some False))) (Some False)"
  have h1: "convertToTree ?n False = Inr ?t"
    by (simp add: render_defs)
  have h2: "?m \<in> set (nodes ?t)"
    by simp
  have r: "reads ?n False = [?n, num 3, num 4]"
    by (simp add: render_defs)
  have v: "\<And>v. ConstantNode v \<in> set (reads ?n False) \<Longrightarrow> valueToString v = Inr (val ?m) \<Longrightarrow>
      v = NumberValue (Finite False 3 1)"
    unfolding r by (auto simp: render_defs)
  from binary_only_invariant [OF h1 h2] v have "binaryOnly ?m"
    by auto
  with h1 h2 r show ?thesis
    by simp
qed

text \<open>
  C1, as the specification states it, fails. The constant NaN (the text \<^verbatim>\<open>NaN\<close>) and
  the constant \<^verbatim>\<open>true\<close> (the text \<^verbatim>\<open>true\<close>) each give a node without children whose
  value does not parse as a number. The symbol of an operator node is copied as it is:
  with the symbol \<^verbatim>\<open>1\<close> the node has both children and a value that parses as a number.
\<close>

theorem binary_only_invariant_counterexample:
  "convertToTree (ConstantNode (NumberValue NaN)) False =
     Inr (TreeNode (str ''NaN'') None None (Some False)) \<and>
   \<not> binaryOnly (TreeNode (str ''NaN'') None None (Some False)) \<and>
   convertToTree (ConstantNode (BooleanValue True)) False =
     Inr (TreeNode (str ''true'') None None (Some False)) \<and>
   \<not> binaryOnly (TreeNode (str ''true'') None None (Some False)) \<and>
   convertToTree (OperatorNode (str ''1'') [num 2, num 3]) False =
     Inr (TreeNode (str ''1'') (Some (TreeNode (str ''2'') None None (Some False)))
            (Some (TreeNode (str ''3'') None None (Some False))) (Some False)) \<and>
   \<not> binaryOnly (TreeNode (str ''1'') (Some (TreeNode (str ''2'') None None (Some False)))
            (Some (TreeNode (str ''3'') None None (Some False))) (Some False))"
proof -
  have "\<not> parsesAsNumber (str ''NaN'')" "\<not> parsesAsNumber (str ''true'')"
    "parsesAsNumber (str ''1'')"
    by (simp_all add: number_defs)
  then show ?thesis
    by (simp add: binaryOnly_def render_defs)
qed

section \<open>Failures of the converter\<close>

text \<open>
  C2, as the code has it. The conversion raises the error \<^verbatim>\<open>Unsupported node type\<close>,
  with the type of the node, exactly when it reads a node of another kind. It raises a
  TypeError exactly when it reads no node of another kind and reads an operator node
  with fewer than two operands or a constant that is \<^verbatim>\<open>null\<close> or \<^verbatim>\<open>undefined\<close>. It
  returns a tree exactly when it reads none of these. An operator node with more than
  two operands is converted from its first two operands.
\<close>

theorem unsupported_node_error:
  "(convertToTree node isSub = Inl (Error (str ''Unsupported node type: '' @ ty))) =
     (OtherNode ty \<in> set (reads node isSub)) \<and>
   (convertToTree node isSub = Inl TypeError) =
     ((\<exists>m \<in> set (reads node isSub).
         operands m = Some 0 \<or> operands m = Some 1 \<or> nullConstant m) \<and>
      (\<forall>m \<in> set (reads node isSub). \<not> isOther m)) \<and>
   (\<exists>t. convertToTree node isSub = Inr t) =
     (\<forall>m \<in> set (reads node isSub).
        \<not> isOther m \<and> operands m \<noteq> Some 0 \<and> operands m \<noteq> Some 1 \<and> \<not> nullConstant m) \<and>
   convertToTree (OperatorNode opr (a # b # others)) isSub =
     convertToTree (OperatorNode opr [a, b]) isSub"
proof (intro conjI)
  show "(convertToTree node isSub = Inl (Error (str ''Unsupported node type: '' @ ty))) =
     (OtherNode ty \<in> set (reads node isSub))"
    by (rule convert_unsupported)
next
  show ok: "(\<exists>t. convertToTree node isSub = Inr t) =
     (\<forall>m \<in> set (reads node isSub).
        \<not> isOther m \<and> operands m \<noteq> Some 0 \<and> operands m \<noteq> Some 1 \<and> \<not> nullConstant m)"
    by (rule convert_succeeds)
  show "(convertToTree node isSub = Inl TypeError) =
     ((\<exists>m \<in> set (reads node isSub).
         operands m = Some 0 \<or> operands m = Some 1 \<or> nullConstant m) \<and>
      (\<forall>m \<in> set (reads node isSub). \<not> isOther m))"
  proof
    assume te: "convertToTree node isSub = Inl TypeError"
    then have "\<not> (\<exists>t. convertToTree node isSub = Inr t)"
      by simp
    then obtain m where m: "m \<in> set (reads node isSub)"
      "isOther m \<or> operands m = Some 0 \<or> operands m = Some 1 \<or> nullConstant m"
      unfolding ok by blast
    have no: "\<forall>m \<in> set (reads node isSub). \<not> isOther m"
    proof (intro ballI notI)
      fix x assume "x \<in> set (reads node isSub)" "isOther x"
      then obtain ty' where "OtherNode ty' \<in> set (reads node isSub)"
        by (auto simp: isOther_iff)
      then have "convertToTree node isSub = Inl (Error (str ''Unsupported node type: '' @ ty'))"
        by (simp add: convert_unsupported)
      with te show False by simp
    qed
    with m show "(\<exists>m \<in> set (reads node isSub).
         operands m = Some 0 \<or> operands m = Some 1 \<or> nullConstant m) \<and>
      (\<forall>m \<in> set (reads node isSub). \<not> isOther m)"
      by blast
  next
    assume a: "(\<exists>m \<in> set (reads node isSub).
         operands m = Some 0 \<or> operands m = Some 1 \<or> nullConstant m) \<and>
      (\<forall>m \<in> set (reads node isSub). \<not> isOther m)"
    then have "\<not> (\<exists>t. convertToTree node isSub = Inr t)"
      unfolding ok by blast
    then obtain e where e: "convertToTree node isSub = Inl e"
      by (cases "convertToTree node isSub") auto
    from convert_error_kind [OF e] show "convertToTree node isSub = Inl TypeError"
    proof
      assume "e = TypeError"
      with e show ?thesis by simp
    next
      assume "\<exists>ty. e = Error (str ''Unsupported node type: '' @ ty)"
      then obtain ty' where "convertToTree node isSub = Inl (Error (str ''Unsupported node type: '' @ ty'))"
        using e by blast
      then have "OtherNode ty' \<in> set (reads node isSub)"
        by (simp add: convert_unsupported)
      with a show ?thesis
        by auto
    qed
  qed
next
  show "convertToTree (OperatorNode opr (a # b # others)) isSub =
     convertToTree (OperatorNode opr [a, b]) isSub"
    by simp
qed

text \<open>
  In \<^verbatim>\<open>x + (-5)\<close> the symbol \<^verbatim>\<open>x\<close> is read first and raises the error of the default
  case; the unary minus is never read.
\<close>

theorem unsupported_node_error_witness:
  "reads (OperatorNode (str ''+'')
      [OtherNode (str ''SymbolNode''), ParenthesisNode (OperatorNode (str ''-'') [num 5])]) False =
     [OperatorNode (str ''+'')
        [OtherNode (str ''SymbolNode''), ParenthesisNode (OperatorNode (str ''-'') [num 5])],
      OtherNode (str ''SymbolNode'')] \<and>
   convertToTree (OperatorNode (str ''+'')
      [OtherNode (str ''SymbolNode''), ParenthesisNode (OperatorNode (str ''-'') [num 5])]) False =
     Inl (Error (str ''Unsupported node type: SymbolNode''))"
proof -
  let ?n = "OperatorNode (str ''+'')
      [OtherNode (str ''SymbolNode''), ParenthesisNode (OperatorNode (str ''-'') [num 5])]"
  have r: "reads ?n False = [?n, OtherNode (str ''SymbolNode'')]"
    by simp
  then have h: "OtherNode (str ''SymbolNode'') \<in> set (reads ?n False)"
    by simp
  from unsupported_node_error [of ?n False "str ''SymbolNode''"] h
  have "convertToTree ?n False = Inl (Error (str ''Unsupported node type: '' @ str ''SymbolNode''))"
    by blast
  with r show ?thesis
    by (simp add: str_def)
qed

text \<open>
  C2, as the specification states it, fails: an operator node with three operands gives
  a tree, and an operator node with one operand fails with a TypeError, not with the
  error of the default case.
\<close>

theorem unsupported_node_error_counterexample:
  "convertToTree (OperatorNode (str ''+'') [num 1, num 2, num 3]) False =
     Inr (TreeNode (str ''+'') (Some (TreeNode (str ''1'') None None (Some False)))
            (Some (TreeNode (str ''2'') None None (Some False))) (Some False)) \<and>
   convertToTree (OperatorNode (str ''-'') [num 5]) False = Inl TypeError"
  by (simp add: render_defs)

section \<open>Grouping nodes\<close>

text \<open>
  C3. The conversion of a parenthesis node is the conversion of its content with the
  flag \<open>True\<close>, whatever flag came in; the tree has the flag set at its root and one
  node for each operator and constant read in the content, none for the parenthesis.
\<close>

theorem grouping_transparent:
  "convertToTree (ParenthesisNode content) isSub = convertToTree content True \<and>
   (\<forall>t. convertToTree (ParenthesisNode content) isSub = Inr t \<longrightarrow>
      isSubExpression t = Some True \<and> length (nodes t) = emitted content)"
  using convert_paren_flag [of content] convert_size [of content True] nodes_self
  by auto

text \<open>
  A parenthesised constant gives the one node of the constant.
\<close>

theorem grouping_transparent_witness:
  "convertToTree (ParenthesisNode (num 7)) False = Inr (TreeNode (str ''7'') None None (Some True)) \<and>
   convertToTree (num 7) True = Inr (TreeNode (str ''7'') None None (Some True)) \<and>
   emitted (num 7) = 1"
proof -
  have h: "convertToTree (ParenthesisNode (num 7)) False =
     Inr (TreeNode (str ''7'') None None (Some True))"
    by (simp add: render_defs)
  from grouping_transparent [of "num 7" False] h show ?thesis
    by (simp add: num_def)
qed

section \<open>Scenario 2\<close>

text \<open>
  C4. The normalizer turns \<^verbatim>\<open>2(3+4)\<close> into \<^verbatim>\<open>2 * (3+4)\<close>. When the parser returns
  for this string the product of 2 and the parenthesised sum of 3 and 4, submitting
  \<^verbatim>\<open>2(3+4)\<close> displays the tree with root \<^verbatim>\<open>*\<close>, left child \<^verbatim>\<open>2\<close>, and right child
  \<^verbatim>\<open>+\<close> with the flag set and the children \<^verbatim>\<open>3\<close> and \<^verbatim>\<open>4\<close>.
\<close>

theorem scenario_implicit_multiplication:
  assumes "parse (str ''2 * (3+4)'') =
     Inr (OperatorNode (str ''*'')
            [num 2, ParenthesisNode (OperatorNode (str ''+'') [num 3, num 4])])"
    and "expression st = str ''2(3+4)''"
  shows "preprocessExpression (str ''2(3+4)'') = str ''2 * (3+4)'' \<and>
         tree (handleSubmit parse st) =
           Some (TreeNode (str ''*'')
                  (Some (TreeNode (str ''2'') None None (Some False)))
                  (Some (TreeNode (str ''+'')
                          (Some (TreeNode (str ''3'') None None (Some True)))
                          (Some (TreeNode (str ''4'') None None (Some True)))
                          (Some True)))
                  (Some False))"
proof -
  have n: "preprocessExpression (str ''2(3+4)'') = str ''2 * (3+4)''"
    by (simp add: eval_defs)
  have c: "convertToTree (OperatorNode (str ''*'')
            [num 2, ParenthesisNode (OperatorNode (str ''+'') [num 3, num 4])]) False =
       Inr (TreeNode (str ''*'')
                  (Some (TreeNode (str ''2'') None None (Some False)))
                  (Some (TreeNode (str ''+'')
                          (Some (TreeNode (str ''3'') None None (Some True)))
                          (Some (TreeNode (str ''4'') None None (Some True)))
                          (Some True)))
                  (Some False))"
    by (simp add: render_defs)
  from assms n c show ?thesis
    by (simp add: handleSubmit_def parseExpression_def)
qed

text \<open>
  The sample parser returns that product.
\<close>

theorem scenario_implicit_multiplication_witness:
  "sampleParse (str ''2 * (3+4)'') =
     Inr (OperatorNode (str ''*'')
            [num 2, ParenthesisNode (OperatorNode (str ''+'') [num 3, num 4])]) \<and>
   expression \<lparr>expression = str ''2(3+4)'', tree = None, console = []\<rparr> = str ''2(3+4)'' \<and>
   tree (handleSubmit sampleParse \<lparr>expression = str ''2(3+4)'', tree = None, console = []\<rparr>) =
           Some (TreeNode (str ''*'')
                  (Some (TreeNode (str ''2'') None None (Some False)))
                  (Some (TreeNode (str ''+'')
                          (Some (TreeNode (str ''3'') None None (Some True)))
                          (Some (TreeNode (str ''4'') None None (Some True)))
                          (Some True)))
                  (Some False))"
proof -
  have h1: "sampleParse (str ''2 * (3+4)'') =
     Inr (OperatorNode (str ''*'')
            [num 2, ParenthesisNode (OperatorNode (str ''+'') [num 3, num 4])])"
    by (simp add: sampleParse_def)
  have h2: "expression \<lparr>expression = str ''2(3+4)'', tree = None, console = []\<rparr> = str ''2(3+4)''"
    by simp
  from scenario_implicit_multiplication
      [of sampleParse "\<lparr>expression = str ''2(3+4)'', tree = None, console = []\<rparr>"] h1 h2
  show ?thesis
    by blast
qed

section \<open>Scenario 5\<close>

text \<open>
  C5, as the code has it: on \<^verbatim>\<open>[1+2]*{3+4}\<close> the normalizer replaces the brackets and
  nothing else, which gives \<^verbatim>\<open>(1+2)*(3+4)\<close>, without spaces around the operator.
\<close>

theorem normalize_brackets_scenario:
  "preprocessExpression (str ''[1+2]*{3+4}'') = str ''(1+2)*(3+4)''"
  by (simp add: eval_defs)

text \<open>
  C5, as the specification states it, fails: the result is not \<^verbatim>\<open>(1+2) * (3+4)\<close>.
\<close>

theorem normalize_brackets_scenario_counterexample:
  "preprocessExpression (str ''[1+2]*{3+4}'') \<noteq> str ''(1+2) * (3+4)''"
  by (simp add: eval_defs)

section \<open>Parse failures\<close>

text \<open>
  C6. When the parser fails on the normalized text, submitting displays no tree and
  writes one line with the parser's error to the console; the text is left as it is.
\<close>

theorem parse_failure_no_tree:
  assumes "parse (preprocessExpression (expression st)) = Inl e"
  shows "tree (handleSubmit parse st) = None \<and>
         console (handleSubmit parse st) = console st @ [(str ''Invalid expression:'', e)] \<and>
         expression (handleSubmit parse st) = expression st"
  using assms by (simp add: handleSubmit_def parseExpression_def)

text \<open>
  The sample parser fails on the unbalanced \<^verbatim>\<open>(2+\<close>.
\<close>

theorem parse_failure_no_tree_witness:
  "sampleParse (preprocessExpression (expression \<lparr>expression = str ''(2+'', tree = None, console = []\<rparr>)) =
     Inl (SyntaxError (str ''Unexpected end of expression'')) \<and>
   tree (handleSubmit sampleParse \<lparr>expression = str ''(2+'', tree = None, console = []\<rparr>) = None \<and>
   console (handleSubmit sampleParse \<lparr>expression = str ''(2+'', tree = None, console = []\<rparr>) =
     [(str ''Invalid expression:'', SyntaxError (str ''Unexpected end of expression''))]"
proof -
  have n: "preprocessExpression (str ''(2+'') = str ''(2+''"
    by (simp add: eval_defs)
  have h: "sampleParse (preprocessExpression (expression \<lparr>expression = str ''(2+'', tree = None, console = []\<rparr>)) =
     Inl (SyntaxError (str ''Unexpected end of expression''))"
    by (simp add: n) (simp add: sampleParse_def str_def)
  from parse_failure_no_tree
      [of sampleParse "\<lparr>expression = str ''(2+'', tree = None, console = []\<rparr>"] h
  show ?thesis
    by simp
qed

section \<open>Decimals next to a parenthesis\<close>

text \<open>
  C7, as the code has it. On \<^verbatim>\<open>2.5(3)\<close> the normalizer gives \<^verbatim>\<open>2.5 * (3)\<close>: the
  digit run \<^verbatim>\<open>5\<close> before the parenthesis matches. A match of the pattern of line 80 is
  a run of ASCII digits, white space and an opening parenthesis; a match of the pattern
  of line 81 is a closing parenthesis, white space and a run of ASCII digits.
\<close>

theorem decimal_before_paren:
  "preprocessExpression (str ''2.5(3)'') = str ''2.5 * (3)'' \<and>
   (exec digitsThenParen s = Some (caps, rest) \<longrightarrow>
      (\<exists>ds ws. ds \<noteq> [] \<and> list_all isDigit ds \<and> list_all isSpace ws \<and>
               caps = [ds, ws @ [0x28]] \<and> s = ds @ ws @ 0x28 # rest)) \<and>
   (exec parenThenDigits s = Some (caps, rest) \<longrightarrow>
      (\<exists>ws ds. ds \<noteq> [] \<and> list_all isDigit ds \<and> list_all isSpace ws \<and>
               caps = [[0x29], ws @ ds] \<and> s = 0x29 # ws @ ds @ rest))"
proof (intro conjI impI)
  show "preprocessExpression (str ''2.5(3)'') = str ''2.5 * (3)''"
    by (simp add: eval_defs)
qed (erule digitsThenParen_match parenThenDigits_match)+

text \<open>
  The pattern of line 80 matches at the \<^verbatim>\<open>5\<close> of \<^verbatim>\<open>2.5(3)\<close>.
\<close>

theorem decimal_before_paren_witness:
  "exec digitsThenParen (str ''5(3)'') = Some ([str ''5'', str ''(''], str ''3)'') \<and>
   (\<exists>ds ws. ds \<noteq> [] \<and> list_all isDigit ds \<and> list_all isSpace ws \<and>
            [str ''5'', str ''(''] = [ds, ws @ [0x28]] \<and> str ''5(3)'' = ds @ ws @ 0x28 # str ''3)'')"
proof -
  have h: "exec digitsThenParen (str ''5(3)'') = Some ([str ''5'', str ''(''], str ''3)'')"
    by (simp add: eval_defs)
  from decimal_before_paren [of "str ''5(3)''" "[str ''5'', str ''('']" "str ''3)''"] h
  show ?thesis
    by blast
qed

text \<open>
  C7, as the specification states it, fails: on \<^verbatim>\<open>2.5(3)\<close> the normalizer changes
  the text and inserts the multiplication sign.
\<close>

theorem decimal_before_paren_counterexample:
  "preprocessExpression (str ''2.5(3)'') \<noteq> str ''2.5(3)'' \<and>
   0x2A \<in> set (preprocessExpression (str ''2.5(3)''))"
  by (simp add: eval_defs)

section \<open>Idempotence on brackets\<close>

text \<open>
  C8. On a string of the characters \<^verbatim>\<open>( ) { } [ ]\<close> only, normalizing twice gives the
  same as normalizing once.
\<close>

theorem normalize_idempotent_on_brackets:
  assumes "set s \<subseteq> set (str ''(){}[]'')"
  shows "preprocessExpression (preprocessExpression s) = preprocessExpression s"
proof -
  let ?u = "\<lambda>c :: jschar. if c = 0x7B \<or> c = 0x5B then 0x28
                else if c = 0x7D \<or> c = 0x5D then 0x29
                else if c = 0x2013 then 0x2D else c"
  have nd: "\<forall>c \<in> set s. \<not> isDigit c"
    using assms by (auto simp: str_def isDigit_def)
  have p: "preprocessExpression s = map ?u s"
    by (rule preprocess_no_digit [OF nd])
  have in_parens: "set (map ?u s) \<subseteq> {0x28, 0x29}"
    using assms by (auto simp: str_def)
  then have nd': "\<forall>c \<in> set (map ?u s). \<not> isDigit c"
    by (auto simp: isDigit_def)
  have "map ?u (map ?u s) = map ?u s"
    using in_parens by (induction s) auto
  with preprocess_no_digit [OF nd'] p show ?thesis
    by simp
qed

text \<open>
  The string \<^verbatim>\<open>{[()]}\<close> is normalized to \<^verbatim>\<open>((()))\<close>.
\<close>

theorem normalize_idempotent_on_brackets_witness:
  "set (str ''{[()]}'') \<subseteq> set (str ''(){}[]'') \<and>
   preprocessExpression (str ''{[()]}'') = str ''((()))'' \<and>
   preprocessExpression (preprocessExpression (str ''{[()]}'')) = preprocessExpression (str ''{[()]}'')"
proof -
  have h: "set (str ''{[()]}'') \<subseteq> set (str ''(){}[]'')"
    by (simp add: str_def)
  have v: "preprocessExpression (str ''{[()]}'') = str ''((()))''"
    by (simp add: eval_defs)
  from h v normalize_idempotent_on_brackets [OF h] show ?thesis
    by simp
qed

section \<open>The entry point never throws\<close>

text \<open>
  C9. \<open>parseExpression\<close> returns a tree when the parser and the converter succeed
  and \<^verbatim>\<open>null\<close> when either throws. When the parser's tree holds an operator node with
  a single operand where the converter reads it, the result is \<^verbatim>\<open>null\<close>, with one line
  on the console.
\<close>

theorem parseExpression_total:
  "fst (parseExpression parse expr con) =
     (case parse expr of
        Inl e \<Rightarrow> None
      | Inr node \<Rightarrow> (case convertToTree node False of Inl e \<Rightarrow> None | Inr t \<Rightarrow> Some t)) \<and>
   (parse expr = Inr node \<and> m \<in> set (visited node) \<and> operands m = Some 1 \<longrightarrow>
      (\<exists>e. parseExpression parse expr con = (None, con @ [(str ''Invalid expression:'', e)])))"
proof (intro conjI impI)
  show "fst (parseExpression parse expr con) =
     (case parse expr of
        Inl e \<Rightarrow> None
      | Inr node \<Rightarrow> (case convertToTree node False of Inl e \<Rightarrow> None | Inr t \<Rightarrow> Some t))"
    by (simp add: parseExpression_def split: sum.splits)
next
  assume a: "parse expr = Inr node \<and> m \<in> set (visited node) \<and> operands m = Some 1"
  then have "\<exists>e. convertToTree node False = Inl e"
    unfolding convert_fails by blast
  with a show "\<exists>e. parseExpression parse expr con = (None, con @ [(str ''Invalid expression:'', e)])"
    by (auto simp: parseExpression_def)
qed

text \<open>
  The unary minus of \<^verbatim>\<open>-5\<close> is such a node.
\<close>

theorem parseExpression_total_witness:
  "sampleParse (str ''-5'') = Inr (OperatorNode (str ''-'') [num 5]) \<and>
   OperatorNode (str ''-'') [num 5] \<in> set (visited (OperatorNode (str ''-'') [num 5])) \<and>
   operands (OperatorNode (str ''-'') [num 5]) = Some 1 \<and>
   parseExpression sampleParse (str ''-5'') [] = (None, [(str ''Invalid expression:'', TypeError)])"
proof -
  have h: "sampleParse (str ''-5'') = Inr (OperatorNode (str ''-'') [num 5])"
    by (simp add: sampleParse_def str_def)
  have v: "parseExpression sampleParse (str ''-5'') [] = (None, [(str ''Invalid expression:'', TypeError)])"
    unfolding parseExpression_def h by (simp add: num_def)
  from parseExpression_total [of sampleParse "str ''-5''" "[]" "OperatorNode (str ''-'') [num 5]"
      "OperatorNode (str ''-'') [num 5]"] h v
  show ?thesis
    by simp
qed

section \<open>The flag below a node\<close>

text \<open>
  C10. In a tree that \<open>convertToTree\<close> returns, below a node with the flag
  \<open>isSubExpression\<close> set every node has the flag set.
\<close>

theorem flag_downward_monotone:
  assumes "convertToTree node isSub = Inr t" and "m \<in> set (nodes t)"
    and "isSubExpression m = Some True" and "d \<in> set (descendants m)"
  shows "isSubExpression d = Some True"
proof -
  from assms(4) have "d \<in> set (nodes m)"
    unfolding descendants_def by (cases m) simp
  with assms(1-3) show ?thesis
    by (rule convert_monotone)
qed

text \<open>
  In the tree of scenario 2, the leaf \<^verbatim>\<open>4\<close> is below the sum, which has the flag set.
\<close>

theorem flag_downward_monotone_witness:
  "convertToTree (OperatorNode (str ''*'') [num 2, ParenthesisNode (OperatorNode (str ''+'') [num 3, num 4])]) False =
     Inr (TreeNode (str ''*'')
            (Some (TreeNode (str ''2'') None None (Some False)))
            (Some (TreeNode (str ''+'')
                    (Some (TreeNode (str ''3'') None None (Some True)))
                    (Some (TreeNode (str ''4'') None None (Some True)))
                    (Some True)))
            (Some False)) \<and>
   isSubExpression (TreeNode (str ''+'')
                    (Some (TreeNode (str ''3'') None None (Some True)))
                    (Some (TreeNode (str ''4'') None None (Some True)))
                    (Some True)) = Some True \<and>
   TreeNode (str ''4'') None None (Some True) \<in>
     set (descendants (TreeNode (str ''+'')
                    (Some (TreeNode (str ''3'') None None (Some True)))
                    (Some (TreeNode (str ''4'') None None (Some True)))
                    (Some True))) \<and>
   isSubExpression (TreeNode (str ''4'') None None (Some True)) = Some True"
proof -
  let ?p = "TreeNode (str ''+'')
                    (Some (TreeNode (str ''3'') None None (Some True)))
                    (Some (TreeNode (str ''4'') None None (Some True)))
                    (Some True)"
  let ?t = "TreeNode (str ''*'') (Some (TreeNode (str ''2'') None None (Some False))) (Some ?p)
              (Some False)"
  have h1: "convertToTree (OperatorNode (str ''*'')
      [num 2, ParenthesisNode (OperatorNode (str ''+'') [num 3, num 4])]) False = Inr ?t"
    by (simp add: render_defs)
  have h2: "?p \<in> set (nodes ?t)"
    by simp
  have h3: "isSubExpression ?p = Some True"
    by simp
  have h4: "TreeNode (str ''4'') None None (Some True) \<in> set (descendants ?p)"
    by (simp add: descendants_def)
  from flag_downward_monotone [OF h1 h2 h3 h4] h1 h3 h4 show ?thesis
    by blast
qed

end
